theory Spec2Isabelle
  imports Complex_Main "HOL-Library.AList" "HOL-Library.Char_ord" "HOL-Library.List_Lexorder"
    "HOL-Library.Product_Lexorder"
begin

section \<open>Logic trees of openquake.commonlib.logictree\<close>

text \<open>
  The development follows \<^verbatim>\<open>src/openquake/commonlib/logictree.py\<close>. Python floats are
  modelled as \<^typ>\<open>real\<close> (exact arithmetic, no rounding), Python's unbounded integers as
  \<^typ>\<open>int\<close> or \<^typ>\<open>nat\<close>, strings as \<^typ>\<open>string\<close>, insertion-ordered dictionaries as
  association lists, and every exception as a value of \<open>error\<close>.
\<close>

datatype error =
  LogicTreeError string
  | InvalidLogicTree string
  | AssertionError
  | KeyError string
  | IndexError
  | ValueError string
  | AttributeError

text \<open>
  Modelled from the spec: \<^verbatim>\<open>pmf.PRECISION\<close> of openquake.hazardlib is not among the
  sources; the spec gives the tolerance as 1e-12 ("or the declared precision constant").
\<close>

definition PRECISION :: real where
  "PRECISION = 1 / 10 ^ 12"

subsection \<open>ImtWeight\<close>

text \<open>
  An \<^verbatim>\<open>ImtWeight\<close> object is its field \<^verbatim>\<open>dic\<close>, a dictionary from the key
  \<^verbatim>\<open>'weight'\<close> and from intensity-measure-type names to floats. Two dictionaries are
  equal in Python when they hold the same keys with the same values, in any order: that is
  equality of \<open>map_of\<close>.
\<close>

type_synonym ImtWeight = "(string \<times> real) list"

text \<open>\<^verbatim>\<open>__getitem__\<close>: \<^verbatim>\<open>self.dic[imt]\<close>, and \<^verbatim>\<open>self.dic['weight']\<close> on a KeyError;
  \<open>None\<close> is the KeyError of the second lookup.\<close>

definition getitem :: "ImtWeight \<Rightarrow> string \<Rightarrow> real option" where
  "getitem d imt = (case map_of d imt of Some v \<Rightarrow> Some v | None \<Rightarrow> map_of d ''weight'')"

text \<open>A dictionary comprehension \<^verbatim>\<open>{k: f(k) for k in keys}\<close> whose value expression can
  raise a KeyError (\<open>None\<close>).\<close>

fun build_dic :: "string list \<Rightarrow> (string \<Rightarrow> real option) \<Rightarrow> ImtWeight option" where
  "build_dic [] f = Some []"
| "build_dic (k # ks) f =
     (case f k of
        None \<Rightarrow> None
      | Some v \<Rightarrow> (case build_dic ks f of None \<Rightarrow> None | Some r \<Rightarrow> Some ((k, v) # r)))"

text \<open>\<^verbatim>\<open>set(self.dic) | set(other.dic)\<close>, in some order of iteration.\<close>

definition union_keys :: "ImtWeight \<Rightarrow> ImtWeight \<Rightarrow> string list" where
  "union_keys x y = remdups (map fst x @ map fst y)"

definition binop :: "(real \<Rightarrow> real \<Rightarrow> real) \<Rightarrow> real option \<Rightarrow> real option \<Rightarrow> real option" where
  "binop f a b = (case a of None \<Rightarrow> None | Some u \<Rightarrow> (case b of None \<Rightarrow> None | Some v \<Rightarrow> Some (f u v)))"

text \<open>\<^verbatim>\<open>__mul__\<close> with an ImtWeight and with a float.\<close>

definition ImtWeight_mul :: "ImtWeight \<Rightarrow> ImtWeight \<Rightarrow> ImtWeight option" where
  "ImtWeight_mul x y = build_dic (union_keys x y) (\<lambda>k. binop (*) (getitem x k) (getitem y k))"

definition ImtWeight_mul_float :: "ImtWeight \<Rightarrow> real \<Rightarrow> ImtWeight" where
  "ImtWeight_mul_float x other = map (\<lambda>(k, v). (k, v * other)) x"

text \<open>\<^verbatim>\<open>__add__\<close> with an ImtWeight and with a float: the keys are those of \<^verbatim>\<open>self.dic\<close>.\<close>

definition ImtWeight_add :: "ImtWeight \<Rightarrow> ImtWeight \<Rightarrow> ImtWeight option" where
  "ImtWeight_add x y = build_dic (map fst x) (\<lambda>k. binop (+) (map_of x k) (getitem y k))"

definition ImtWeight_add_float :: "ImtWeight \<Rightarrow> real \<Rightarrow> ImtWeight" where
  "ImtWeight_add_float x other = map (\<lambda>(k, v). (k, v + other)) x"

text \<open>\<^verbatim>\<open>is_one\<close>: \<^verbatim>\<open>all(abs(v - 1.) < pmf.PRECISION for v in self.dic.values() if v)\<close>.\<close>

definition is_one :: "ImtWeight \<Rightarrow> bool" where
  "is_one d = list_all (\<lambda>v. \<bar>v - 1\<bar> < PRECISION) (filter (\<lambda>v. v \<noteq> 0) (map snd d))"

text \<open>\<^verbatim>\<open>sum(weights)\<close> over ImtWeights: Python starts from the integer 0, so the first
  step is \<^verbatim>\<open>__radd__\<close> with a float and the later ones are \<^verbatim>\<open>__add__\<close> with an
  ImtWeight. \<open>Inr None\<close> is the integer 0 of an empty list; \<open>Inl\<close> is the KeyError of
  \<^verbatim>\<open>__getitem__\<close>.\<close>

fun sum_from :: "ImtWeight \<Rightarrow> ImtWeight list \<Rightarrow> error + ImtWeight" where
  "sum_from acc [] = Inr acc"
| "sum_from acc (w # ws) =
     (case ImtWeight_add acc w of
        None \<Rightarrow> Inl (KeyError ''weight'')
      | Some acc' \<Rightarrow> sum_from acc' ws)"

definition sum_weights :: "ImtWeight list \<Rightarrow> error + ImtWeight option" where
  "sum_weights ws =
     (case ws of
        [] \<Rightarrow> Inr None
      | w # rest \<Rightarrow>
          (case sum_from (ImtWeight_add_float w 0) rest of
             Inl e \<Rightarrow> Inl e
           | Inr tot \<Rightarrow> Inr (Some tot)))"

subsection \<open>Input nodes\<close>

text \<open>
  The attributed-node tree that \<^verbatim>\<open>nrml.read\<close> hands to both logic trees. A branch node
  carries its attributes, the text of its \<^verbatim>\<open>uncertaintyModel\<close> child and the list of its
  \<^verbatim>\<open>uncertaintyWeight\<close> children (attributes and the float already read from the text).
  A node of the top level is a legacy branching level holding branch sets, a branch set, or
  something else.
\<close>

record weight_node =
  wattrib :: "(string \<times> string) list"
  wvalue :: real

record branch_node =
  battrib :: "(string \<times> string) list"
  uncertaintyModel :: "string option"
  uncertaintyWeight :: "weight_node list"

record branchset_node =
  attrib :: "(string \<times> string) list"
  nodes :: "branch_node list"
  lineno :: nat

datatype level_node =
  BranchingLevel string "branchset_node list"
  | BranchSetNode branchset_node
  | OtherNode string

text \<open>\<^verbatim>\<open>node[key]\<close> raises a KeyError on a missing attribute; \<^verbatim>\<open>node.get(key)\<close> is
  \<open>map_of\<close>.\<close>

definition attr :: "(string \<times> string) list \<Rightarrow> string \<Rightarrow> error + string" where
  "attr a k = (case map_of a k of None \<Rightarrow> Inl (KeyError k) | Some v \<Rightarrow> Inr v)"

text \<open>\<^verbatim>\<open>_bsnodes\<close>, and the unpacking \<^verbatim>\<open>[bsnode] = _bsnodes(...)\<close> of its callers.\<close>

fun bsnodes :: "level_node \<Rightarrow> error + branchset_node list" where
  "bsnodes (BranchingLevel lid bss) =
     (if length bss > 1 then Inl (InvalidLogicTree ''Branching level has multiple branchsets'')
      else Inr bss)"
| "bsnodes (BranchSetNode bs) = Inr [bs]"
| "bsnodes (OtherNode t) = Inl (ValueError ''Expected BranchingLevel/BranchSet'')"

definition the_bsnode :: "level_node \<Rightarrow> error + branchset_node" where
  "the_bsnode bl =
     (case bsnodes bl of
        Inl e \<Rightarrow> Inl e
      | Inr [bs] \<Rightarrow> Inr bs
      | Inr _ \<Rightarrow> Inl (ValueError ''unpack''))"

subsection \<open>Construction of an ImtWeight\<close>

fun imt_entries :: "weight_node list \<Rightarrow> error + (string \<times> real) list" where
  "imt_entries [] = Inr []"
| "imt_entries (n # ns) =
     (case attr (wattrib n) ''imt'' of
        Inl e \<Rightarrow> Inl e
      | Inr imt \<Rightarrow>
          (case imt_entries ns of Inl e \<Rightarrow> Inl e | Inr r \<Rightarrow> Inr ((imt, wvalue n) # r)))"

text \<open>\<^verbatim>\<open>ImtWeight.__init__\<close>.\<close>

definition ImtWeight_init :: "branch_node \<Rightarrow> error + ImtWeight" where
  "ImtWeight_init branch =
     (case uncertaintyWeight branch of
        [] \<Rightarrow> Inl AttributeError
      | n0 # ns \<Rightarrow>
          if ''imt'' \<in> set (map fst (wattrib n0))
          then Inl (InvalidLogicTree ''The first uncertaintyWeight has an imt attribute'')
          else
            (case imt_entries ns of
               Inl e \<Rightarrow> Inl e
             | Inr kvs \<Rightarrow>
                 if \<not> distinct (map fst kvs)
                 then Inl (InvalidLogicTree ''There are duplicated IMTs in the weights'')
                 else Inr (foldl (\<lambda>d (k, v). AList.update k v d) [(''weight'', wvalue n0)] kvs)))"

subsection \<open>The GSIM logic tree\<close>

text \<open>
  A ground-motion model is opaque but for its text; \<^verbatim>\<open>collapse\<close> builds an
  \<^verbatim>\<open>AvgGMPE\<close> from the branch ids, the models and the \<^verbatim>\<open>'weight'\<close> components of a
  group. \<^verbatim>\<open>valid.gsim\<close> is outside the sources and is a parameter of the construction
  (\<open>None\<close> when it raises).
\<close>

datatype gsim = GMPE string | AvgGMPE "string list" "gsim list" "real list"

datatype BranchTuple =
  BranchTuple (trt: string) (bt_id: string) (gsim: gsim) (bt_weight: ImtWeight) (effective: bool)

record GsimLogicTree =
  gl_values :: "(string option \<times> gsim list) list"
  bs_id_by_trt :: "(string option \<times> string) list"
  gl_branches :: "BranchTuple list"

text \<open>\<^verbatim>\<open>itertools.groupby\<close>: maximal runs of consecutive elements with the same key.\<close>

function groupby :: "('a \<Rightarrow> 'k) \<Rightarrow> 'a list \<Rightarrow> ('k \<times> 'a list) list" where
  "groupby key [] = []"
| "groupby key (x # xs) =
     (key x, x # takeWhile (\<lambda>y. key y = key x) xs)
       # groupby key (dropWhile (\<lambda>y. key y = key x) xs)"
  by pat_completeness auto
termination
  by (relation "measure (\<lambda>(key, xs). length xs)") (auto simp: length_dropWhile_le less_Suc_eq_le)

text \<open>\<^verbatim>\<open>get_num_branches\<close>: the dictionary \<^verbatim>\<open>num\<close>, one assignment per group.\<close>

definition get_num_branches :: "GsimLogicTree \<Rightarrow> (string \<times> nat) list" where
  "get_num_branches t =
     foldl (\<lambda>num (r, brs). AList.update r (length (filter effective brs)) num) []
       (groupby trt (gl_branches t))"

text \<open>\<^verbatim>\<open>get_num_paths\<close>.\<close>

definition get_num_paths :: "GsimLogicTree \<Rightarrow> nat" where
  "get_num_paths t =
     (let num_branches = get_num_branches t in
      if sum_list (map snd num_branches) = 0 then 0
      else foldl (\<lambda>num val. if val \<noteq> 0 then num * val else num) 1 (map snd num_branches))"

text \<open>\<^verbatim>\<open>reduce\<close>; \<open>trts\<close> is the given set of tectonic region types.\<close>

definition reduce :: "GsimLogicTree \<Rightarrow> string set \<Rightarrow> GsimLogicTree" where
  "reduce t trts =
     (if trts \<noteq> {''*''}
      then t\<lparr>gl_branches :=
        map (\<lambda>br. BranchTuple (trt br) (bt_id br) (gsim br) (bt_weight br) (trt br \<in> trts))
          (gl_branches t)\<rparr>
      else t)"

text \<open>
  \<^verbatim>\<open>collapse\<close>. One step per group of \<^verbatim>\<open>itertools.groupby\<close>: the lists \<^verbatim>\<open>brs\<close>,
  \<^verbatim>\<open>gsims\<close> and \<^verbatim>\<open>weights\<close> are filled from the whole group; after the inner loop the
  variable \<^verbatim>\<open>br\<close> is the last branch of the group, and that is what the
  \<^verbatim>\<open>else\<close> branch appends.
\<close>

fun weight_components :: "ImtWeight list \<Rightarrow> error + real list" where
  "weight_components [] = Inr []"
| "weight_components (w # ws) =
     (case getitem w ''weight'' of
        None \<Rightarrow> Inl (KeyError ''weight'')
      | Some v \<Rightarrow> (case weight_components ws of Inl e \<Rightarrow> Inl e | Inr r \<Rightarrow> Inr (v # r)))"

definition collapse_group ::
  "GsimLogicTree \<Rightarrow> string list \<Rightarrow> string \<times> BranchTuple list \<Rightarrow> error + BranchTuple" where
  "collapse_group t branchset_ids g =
     (case g of (r, grp) \<Rightarrow>
       (case map_of (bs_id_by_trt t) (Some r) of
          None \<Rightarrow> Inl (KeyError r)
        | Some bs_id \<Rightarrow>
            let brs = map bt_id grp; gsims = map gsim grp; weights = map bt_weight grp in
            if length gsims > 1 \<and> bs_id \<in> set branchset_ids
            then
              (case weight_components weights of
                 Inl e \<Rightarrow> Inl e
               | Inr ws \<Rightarrow>
                   (case sum_weights weights of
                      Inl e \<Rightarrow> Inl e
                    | Inr None \<Rightarrow> Inl AttributeError
                    | Inr (Some tot) \<Rightarrow> Inr (BranchTuple r bs_id (AvgGMPE brs gsims ws) tot True)))
            else Inr (last grp)))"

fun collapse_groups ::
  "GsimLogicTree \<Rightarrow> string list \<Rightarrow> (string \<times> BranchTuple list) list \<Rightarrow> error + BranchTuple list" where
  "collapse_groups t branchset_ids [] = Inr []"
| "collapse_groups t branchset_ids (g # gs) =
     (case collapse_group t branchset_ids g of
        Inl e \<Rightarrow> Inl e
      | Inr b \<Rightarrow>
          (case collapse_groups t branchset_ids gs of
             Inl e \<Rightarrow> Inl e
           | Inr bs \<Rightarrow> Inr (b # bs)))"

definition collapse :: "GsimLogicTree \<Rightarrow> string list \<Rightarrow> error + GsimLogicTree" where
  "collapse t branchset_ids =
     (case collapse_groups t branchset_ids (groupby trt (gl_branches t)) of
        Inl e \<Rightarrow> Inl e
      | Inr bs \<Rightarrow> Inr (t\<lparr>gl_branches := bs\<rparr>))"

subsection \<open>Construction of the GSIM logic tree\<close>

definition bind_err :: "error + 'a \<Rightarrow> ('a \<Rightarrow> error + 'b) \<Rightarrow> error + 'b" where
  "bind_err m f = (case m of Inl e \<Rightarrow> Inl e | Inr x \<Rightarrow> f x)"

text \<open>Reading \<^verbatim>\<open>d[k]\<close> of a \<^verbatim>\<open>collections.defaultdict(list)\<close>: a missing key is
  inserted with the empty list.\<close>

definition dd_get :: "('k \<times> 'v list) list \<Rightarrow> 'k \<Rightarrow> 'v list \<times> ('k \<times> 'v list) list" where
  "dd_get d k = (case map_of d k of Some v \<Rightarrow> (v, d) | None \<Rightarrow> ([], d @ [(k, [])]))"

text \<open>The variables of \<^verbatim>\<open>_build_trts_branches\<close> that its loops update, with the two
  dictionaries of \<^verbatim>\<open>self\<close>.\<close>

record build_state =
  st_trts :: "string list"
  st_branches :: "BranchTuple list"
  st_branchsetids :: "string list"
  st_values :: "(string option \<times> gsim list) list"
  st_bs_id_by_trt :: "(string option \<times> string) list"

record branch_loop =
  lp_weights :: "ImtWeight list"
  lp_branch_ids :: "string list"
  lp_values :: "(string option \<times> gsim list) list"
  lp_branches :: "BranchTuple list"

text \<open>The body of \<^verbatim>\<open>for branch in branchset\<close>.\<close>

definition build_branch ::
  "(string \<Rightarrow> gsim option) \<Rightarrow> branchset_node \<Rightarrow> string option \<Rightarrow> bool \<Rightarrow> branch_loop
     \<Rightarrow> branch_node \<Rightarrow> error + branch_loop" where
  "build_branch valid_gsim branchset r eff lp branch =
     bind_err (ImtWeight_init branch) (\<lambda>weight.
     bind_err (attr (battrib branch) ''branchID'') (\<lambda>branch_id.
     bind_err (case uncertaintyModel branch of
                 None \<Rightarrow> Inl (ValueError ''uncertaintyModel'')
               | Some txt \<Rightarrow>
                   (case valid_gsim txt of
                      None \<Rightarrow> Inl (ValueError txt)
                    | Some g \<Rightarrow> Inr g)) (\<lambda>g.
     case dd_get (lp_values lp) r of (known, values1) \<Rightarrow>
       if g \<in> set known then Inl (InvalidLogicTree ''duplicated gsim'')
       else
         bind_err (attr (attrib branchset) ''applyToTectonicRegionType'') (\<lambda>bt_trt.
           Inr \<lparr>lp_weights = lp_weights lp @ [weight],
                lp_branch_ids = lp_branch_ids lp @ [branch_id],
                lp_values = AList.update r (known @ [g]) values1,
                lp_branches =
                  (if eff then lp_branches lp @ [BranchTuple bt_trt branch_id g weight eff]
                   else lp_branches lp)\<rparr>))))"

fun build_branches ::
  "(string \<Rightarrow> gsim option) \<Rightarrow> branchset_node \<Rightarrow> string option \<Rightarrow> bool \<Rightarrow> branch_loop
     \<Rightarrow> branch_node list \<Rightarrow> error + branch_loop" where
  "build_branches valid_gsim branchset r eff lp [] = Inr lp"
| "build_branches valid_gsim branchset r eff lp (b # bs) =
     bind_err (build_branch valid_gsim branchset r eff lp b)
       (\<lambda>lp'. build_branches valid_gsim branchset r eff lp' bs)"

text \<open>Modelled from the spec: \<^verbatim>\<open>duplicated\<close> of openquake.baselib.general is not among
  the sources; the spec has construction reject duplicate branch identifiers.\<close>

definition duplicated :: "string list \<Rightarrow> bool" where
  "duplicated xs = (\<not> distinct xs)"

text \<open>The body of \<^verbatim>\<open>for blnode in self._ltnode\<close>.\<close>

definition build_branchset ::
  "(string \<Rightarrow> gsim option) \<Rightarrow> string list \<Rightarrow> build_state \<Rightarrow> level_node
     \<Rightarrow> error + build_state" where
  "build_branchset valid_gsim tectonic_region_types st blnode =
     bind_err (the_bsnode blnode) (\<lambda>branchset.
     bind_err (attr (attrib branchset) ''uncertaintyType'') (\<lambda>utype.
       if utype \<noteq> ''gmpeModel''
       then Inl (InvalidLogicTree ''only uncertainties of type gmpeModel are allowed'')
       else
     bind_err (attr (attrib branchset) ''branchSetID'') (\<lambda>bsid.
       if bsid \<in> set (st_branchsetids st) then Inl (InvalidLogicTree ''Duplicated branchSetID'')
       else
         let r = map_of (attrib branchset) ''applyToTectonicRegionType'';
             trts1 = (case r of Some v \<Rightarrow> if v \<noteq> [] then st_trts st @ [v] else st_trts st
                      | None \<Rightarrow> st_trts st);
             eff = (tectonic_region_types = [''*'']
                    \<or> (case r of Some v \<Rightarrow> v \<in> set tectonic_region_types | None \<Rightarrow> False))
         in
         bind_err (build_branches valid_gsim branchset r eff
                     \<lparr>lp_weights = [], lp_branch_ids = [], lp_values = st_values st,
                      lp_branches = st_branches st\<rparr> (nodes branchset)) (\<lambda>lp.
         bind_err (sum_weights (lp_weights lp)) (\<lambda>tot.
           case tot of
             None \<Rightarrow> Inl AttributeError
           | Some tot \<Rightarrow>
               if \<not> is_one tot then Inl AssertionError
               else if duplicated (lp_branch_ids lp)
               then Inl (InvalidLogicTree ''There where duplicated branchIDs'')
               else Inr \<lparr>st_trts = trts1,
                         st_branches = lp_branches lp,
                         st_branchsetids = st_branchsetids st @ [bsid],
                         st_values = lp_values lp,
                         st_bs_id_by_trt = AList.update r bsid (st_bs_id_by_trt st)\<rparr>)))))"

fun build_levels ::
  "(string \<Rightarrow> gsim option) \<Rightarrow> string list \<Rightarrow> build_state \<Rightarrow> level_node list
     \<Rightarrow> error + build_state" where
  "build_levels valid_gsim tectonic_region_types st [] = Inr st"
| "build_levels valid_gsim tectonic_region_types st (bl # bls) =
     bind_err (build_branchset valid_gsim tectonic_region_types st bl)
       (\<lambda>st'. build_levels valid_gsim tectonic_region_types st' bls)"

text \<open>\<^verbatim>\<open>_build_trts_branches\<close>: the loop, the check of the region types and the sort.\<close>

definition build_trts_branches ::
  "(string \<Rightarrow> gsim option) \<Rightarrow> string list \<Rightarrow> level_node list \<Rightarrow> error + build_state" where
  "build_trts_branches valid_gsim tectonic_region_types ltnode =
     bind_err (build_levels valid_gsim tectonic_region_types
                 \<lparr>st_trts = [], st_branches = [], st_branchsetids = [], st_values = [],
                  st_bs_id_by_trt = []\<rparr> ltnode) (\<lambda>st.
       if \<not> distinct (st_trts st)
       then Inl (InvalidLogicTree ''Found duplicated applyToTectonicRegionType'')
       else Inr (st\<lparr>st_branches := sort_key (\<lambda>b. (trt b, bt_id b)) (st_branches st)\<rparr>))"

text \<open>\<^verbatim>\<open>GsimLogicTree.__init__\<close>, given the node of the logic tree.\<close>

definition GsimLogicTree_init ::
  "(string \<Rightarrow> gsim option) \<Rightarrow> string list \<Rightarrow> level_node list \<Rightarrow> error + GsimLogicTree" where
  "GsimLogicTree_init valid_gsim tectonic_region_types ltnode =
     (let trts = sort tectonic_region_types in
      if \<not> distinct trts
      then Inl (ValueError ''The given tectonic region types are not distinct'')
      else
        bind_err (build_trts_branches valid_gsim trts ltnode) (\<lambda>st.
          let vals = (if trts \<noteq> [''*'']
                      then map (\<lambda>r. (Some r, fst (dd_get (st_values st) (Some r)))) trts
                      else st_values st)
          in
          if tectonic_region_types \<noteq> [] \<and> st_branches st = []
          then Inl (InvalidLogicTree ''Could not find branches'')
          else Inr \<lparr>gl_values = vals, bs_id_by_trt = st_bs_id_by_trt st,
                    gl_branches = st_branches st\<rparr>))"

text \<open>
  Scenario C: two branch sets, for the tectonic region types Active and Stable, each with
  two branches of weight 0.5.
\<close>

definition gsim_branch :: "string \<Rightarrow> string \<Rightarrow> real \<Rightarrow> branch_node" where
  "gsim_branch bid model w =
     \<lparr>battrib = [(''branchID'', bid)], uncertaintyModel = Some model,
      uncertaintyWeight = [\<lparr>wattrib = [], wvalue = w\<rparr>]\<rparr>"

definition gsim_branchset :: "string \<Rightarrow> string \<Rightarrow> branch_node list \<Rightarrow> level_node" where
  "gsim_branchset bsid r bs =
     BranchSetNode
       \<lparr>attrib = [(''uncertaintyType'', ''gmpeModel''), (''branchSetID'', bsid),
                  (''applyToTectonicRegionType'', r)],
        nodes = bs, lineno = 0\<rparr>"

definition scenario_C_nodes :: "level_node list" where
  "scenario_C_nodes =
     [gsim_branchset ''bs1'' ''Active''
        [gsim_branch ''b1'' ''GmpeA'' (1 / 2), gsim_branch ''b2'' ''GmpeB'' (1 / 2)],
      gsim_branchset ''bs2'' ''Stable''
        [gsim_branch ''b3'' ''GmpeC'' (1 / 2), gsim_branch ''b4'' ''GmpeD'' (1 / 2)]]"

definition scenario_C :: GsimLogicTree where
  "scenario_C =
     \<lparr>gl_values = [(Some ''Active'', [GMPE ''GmpeA'', GMPE ''GmpeB'']),
                   (Some ''Stable'', [GMPE ''GmpeC'', GMPE ''GmpeD''])],
      bs_id_by_trt = [(Some ''Active'', ''bs1''), (Some ''Stable'', ''bs2'')],
      gl_branches =
        [BranchTuple ''Active'' ''b1'' (GMPE ''GmpeA'') [(''weight'', 1 / 2)] True,
         BranchTuple ''Active'' ''b2'' (GMPE ''GmpeB'') [(''weight'', 1 / 2)] True,
         BranchTuple ''Stable'' ''b3'' (GMPE ''GmpeC'') [(''weight'', 1 / 2)] True,
         BranchTuple ''Stable'' ''b4'' (GMPE ''GmpeD'') [(''weight'', 1 / 2)] True]\<rparr>"

subsection \<open>The number of paths, in the words of the specification\<close>

text \<open>The tectonic region types of a tree, each once, and the number of effective branches
  of one of them.\<close>

definition regions :: "GsimLogicTree \<Rightarrow> string list" where
  "regions t = remdups (map trt (gl_branches t))"

definition effective_count :: "GsimLogicTree \<Rightarrow> string \<Rightarrow> nat" where
  "effective_count t r = length (filter (\<lambda>b. trt b = r \<and> effective b) (gl_branches t))"

text \<open>The product over the region types of the effective branch counts, as the
  specification words it, and the product over the region types that have an effective
  branch.\<close>

definition product_of_counts :: "GsimLogicTree \<Rightarrow> nat" where
  "product_of_counts t = prod_list (map (effective_count t) (regions t))"

definition product_of_nonzero_counts :: "GsimLogicTree \<Rightarrow> nat" where
  "product_of_nonzero_counts t =
     prod_list (map (effective_count t) (filter (\<lambda>r. effective_count t r \<noteq> 0) (regions t)))"

definition no_effective_branch :: "GsimLogicTree \<Rightarrow> bool" where
  "no_effective_branch t = (filter effective (gl_branches t) = [])"

text \<open>
  A branch set whose two branches give the intensity measure type PGA the weight 0:
  \<^verbatim>\<open><uncertaintyWeight>0.5</uncertaintyWeight>\<close> and
  \<^verbatim>\<open><uncertaintyWeight imt="PGA">0</uncertaintyWeight>\<close> in each branch.
\<close>

definition zero_imt_branch :: "string \<Rightarrow> string \<Rightarrow> branch_node" where
  "zero_imt_branch bid model =
     \<lparr>battrib = [(''branchID'', bid)], uncertaintyModel = Some model,
      uncertaintyWeight =
        [\<lparr>wattrib = [], wvalue = 1 / 2\<rparr>, \<lparr>wattrib = [(''imt'', ''PGA'')], wvalue = 0\<rparr>]\<rparr>"

definition zero_imt_nodes :: "level_node list" where
  "zero_imt_nodes =
     [gsim_branchset ''bs1'' ''Active''
        [zero_imt_branch ''b1'' ''GmpeA'', zero_imt_branch ''b2'' ''GmpeB'']]"

subsection \<open>The sum of the weights of a branch set, in the words of the specification\<close>

text \<open>
  The intensity-measure-type keys present in the branches of a branch set, and the sum
  over the branches of the weight that each gives to one key (a branch that does not
  declare the key gives it its \<^verbatim>\<open>'weight'\<close>, as \<^verbatim>\<open>__getitem__\<close> does).
\<close>

definition imt_keys :: "ImtWeight list \<Rightarrow> string list" where
  "imt_keys ws = remdups (concat (map (map fst) ws))"

fun component_sum :: "ImtWeight list \<Rightarrow> string \<Rightarrow> real option" where
  "component_sum [] imt = Some 0"
| "component_sum (w # ws) imt = binop (+) (getitem w imt) (component_sum ws imt)"

text \<open>The branches of a branch set declare the same keys.\<close>

definition same_keys :: "ImtWeight list \<Rightarrow> bool" where
  "same_keys ws = (\<forall>w \<in> set ws. \<forall>w' \<in> set ws. set (map fst w) = set (map fst w'))"

text \<open>
  A branch with \<^verbatim>\<open><uncertaintyWeight>w</uncertaintyWeight>\<close> and
  \<^verbatim>\<open><uncertaintyWeight imt="...">v</uncertaintyWeight>\<close>, and a tree of two branch sets
  whose branches weigh PGA by 0.3 and 0.7, and by 0 and 0.
\<close>

definition imt_branch :: "string \<Rightarrow> string \<Rightarrow> real \<Rightarrow> string \<Rightarrow> real \<Rightarrow> branch_node" where
  "imt_branch bid model w imt v =
     \<lparr>battrib = [(''branchID'', bid)], uncertaintyModel = Some model,
      uncertaintyWeight =
        [\<lparr>wattrib = [], wvalue = w\<rparr>, \<lparr>wattrib = [(''imt'', imt)], wvalue = v\<rparr>]\<rparr>"

definition imt_nodes :: "level_node list" where
  "imt_nodes =
     [gsim_branchset ''bs1'' ''Active''
        [imt_branch ''b1'' ''GmpeA'' (1 / 2) ''PGA'' (3 / 10),
         imt_branch ''b2'' ''GmpeB'' (1 / 2) ''PGA'' (7 / 10)],
      gsim_branchset ''bs2'' ''Stable''
        [imt_branch ''b3'' ''GmpeC'' (1 / 4) ''PGA'' 0,
         imt_branch ''b4'' ''GmpeD'' (3 / 4) ''PGA'' 0]]"


section \<open>The source model logic tree\<close>

subsection \<open>Branch, BranchSet and Realization\<close>

text \<open>
  \<^verbatim>\<open>Branch\<close> and \<^verbatim>\<open>BranchSet\<close>. The attribute \<^verbatim>\<open>value\<close> of a branch is called
  \<open>uvalue\<close> here, as its column in \<^verbatim>\<open>__toh5__\<close>. A branch set that several branches
  point to is shared in Python; it is never changed once a child is attached below it, so
  the tree that the branches unfold to has the same paths. A filter value is a string, or
  the list that \<^verbatim>\<open>parse_filters\<close> makes of \<^verbatim>\<open>applyToSources\<close>.
\<close>

datatype filter_value = FilterStr string | FilterList "string list"

datatype Branch =
  Branch (bs_id: string) (branch_id: string) (weight: real) (uvalue: string)
    (bset: "BranchSet option")
and BranchSet =
  BranchSet (uncertainty_type: "string option") (filters: "(string \<times> filter_value) list")
    (branches: "Branch list")

record Realization =
  rvalue :: string
  rweight :: real
  ordinal :: "nat option"
  lt_path :: "string list"
  samples :: nat
  offset :: nat

text \<open>The state of a \<^verbatim>\<open>SourceModelLogicTree\<close>, its attributes prefixed with \<open>smlt_\<close>
  where the name is also that of a parameter: \<^verbatim>\<open>self.branches\<close> and \<^verbatim>\<open>self.bsetdict\<close> are
  dictionaries in insertion order, \<^verbatim>\<open>self.source_ids\<close> maps a branch id to the source
  ids found in its source models.\<close>

record SourceModelLogicTree =
  smlt_filename :: string
  smlt_seed :: int
  smlt_num_samples :: int
  smlt_branches :: "(string \<times> Branch) list"
  bsetdict :: "(string \<times> (string \<times> string) list) list"
  smlt_tectonic_region_types :: "string set"
  smlt_source_types :: "string set"
  smlt_source_ids :: "(string \<times> string list) list"
  root_branchset :: "BranchSet option"

subsection \<open>Enumeration of the paths\<close>







subsection \<open>Sampling\<close>

text \<open>
  The generator of numpy is a global state of type \<open>'g\<close>, and its two functions are
  parameters: \<^verbatim>\<open>numpy.random.seed(seed)\<close> gives the state for a seed, or raises;
  \<^verbatim>\<open>numpy.random.choice(a, size, p=weights)\<close> reads a state and gives \<open>size\<close> indices
  and the next state, or raises.
\<close>

record 'g rng =
  rng_seed :: "int \<Rightarrow> error + 'g"
  rng_choice :: "'g \<Rightarrow> nat \<Rightarrow> nat \<Rightarrow> real list \<Rightarrow> (error + nat list) \<times> 'g"

text \<open>The first loop of \<^verbatim>\<open>sample\<close>; \<open>weight_of\<close> is \<^verbatim>\<open>obj.weight\<close> for a float and
  \<^verbatim>\<open>obj.weight['weight']\<close> for an ImtWeight.\<close>

fun weights_of :: "('a \<Rightarrow> error + real) \<Rightarrow> 'a list \<Rightarrow> error + real list" where
  "weights_of weight_of [] = Inr []"
| "weights_of weight_of (obj # objs) =
     (case weight_of obj of
        Inl e \<Rightarrow> Inl e
      | Inr w \<Rightarrow> (case weights_of weight_of objs of Inl e \<Rightarrow> Inl e | Inr ws \<Rightarrow> Inr (w # ws)))"

text \<open>\<^verbatim>\<open>sample\<close>: \<open>g\<close> is the state of the generator before the call; an index out of
  range raises an IndexError.\<close>

definition sample ::
  "'g rng \<Rightarrow> ('a \<Rightarrow> error + real) \<Rightarrow> 'a list \<Rightarrow> nat \<Rightarrow> int \<Rightarrow> 'g \<Rightarrow> (error + 'a list) \<times> 'g" where
  "sample R weight_of weighted_objects n sd g =
     (case weights_of weight_of weighted_objects of
        Inl e \<Rightarrow> (Inl e, g)
      | Inr weights \<Rightarrow>
          (case rng_seed R sd of
             Inl e \<Rightarrow> (Inl e, g)
           | Inr g1 \<Rightarrow>
               (case rng_choice R g1 (length weights) n weights of
                  (Inl e, g2) \<Rightarrow> (Inl e, g2)
                | (Inr idxs, g2) \<Rightarrow>
                    (if list_all (\<lambda>idx. idx < length weighted_objects) idxs
                     then (Inr (map (\<lambda>idx. weighted_objects ! idx) idxs), g2)
                     else (Inl IndexError, g2)))))"

definition branch_weight :: "Branch \<Rightarrow> error + real" where
  "branch_weight b = Inr (weight b)"

text \<open>The size of what is left of the tree below a branch set.\<close>

definition remaining :: "BranchSet option \<Rightarrow> nat" where
  "remaining bso = (case bso of None \<Rightarrow> 0 | Some bs \<Rightarrow> Suc (size bs))"


lemma sample_subset:
  "sample R weight_of objs n sd g = (Inr xs, g') \<Longrightarrow> set xs \<subseteq> set objs"
  by (auto simp: sample_def list_all_iff split: sum.splits prod.splits if_splits)

lemma remaining_child: "b \<in> set (branches bs) \<Longrightarrow> remaining (bset b) < remaining (Some bs)"
proof -
  assume b: "b \<in> set (branches bs)"
  obtain ut fs brs where bs: "bs = BranchSet ut fs brs" by (cases bs)
  obtain bsid bid w v c where br: "b = Branch bsid bid w v c" by (cases b)
  have "size b \<le> size_list size brs"
    using b bs by (simp add: size_list_estimation')
  moreover have "remaining c \<le> size b"
    by (cases c) (simp_all add: br remaining_def)
  ultimately show ?thesis by (simp add: bs br remaining_def)
qed

text \<open>\<^verbatim>\<open>sample_path\<close>: one turn of the \<^verbatim>\<open>while branchset is not None\<close> loop and the
  rest of the walk; \<^verbatim>\<open>[branch] = sample(...)\<close> raises a ValueError unless the sample
  has one element.\<close>

function sample_path_from ::
  "'g rng \<Rightarrow> BranchSet option \<Rightarrow> int \<Rightarrow> 'g \<Rightarrow> (error + Branch list) \<times> 'g" where
  "sample_path_from R None sd g = (Inr [], g)"
| "sample_path_from R (Some branchset) sd g =
     (case sample R branch_weight (branches branchset) 1 sd g of
        (Inl e, g1) \<Rightarrow> (Inl e, g1)
      | (Inr [], g1) \<Rightarrow> (Inl (ValueError ''unpack''), g1)
      | (Inr [branch], g1) \<Rightarrow>
          (case sample_path_from R (bset branch) sd g1 of
             (Inl e, g2) \<Rightarrow> (Inl e, g2)
           | (Inr rest, g2) \<Rightarrow> (Inr (branch # rest), g2))
      | (Inr (b1 # b2 # bs), g1) \<Rightarrow> (Inl (ValueError ''unpack''), g1))"
  by pat_completeness auto
termination
proof (relation "measure (\<lambda>(R, bso, sd, g). remaining bso)")
  show "wf (measure (\<lambda>(R :: 'g rng, bso, sd :: int, g :: 'g). remaining bso))"
    by simp
next
  fix R :: "'g rng" and branchset sd and g :: 'g and x and y :: 'g and b x21 x22
  assume "(x, y) = sample R branch_weight (branches branchset) 1 sd g"
    and "x = Inr b" and "b = x21 # x22" and "x22 = []"
  then have "sample R branch_weight (branches branchset) 1 sd g = (Inr [x21], y)"
    by simp
  from sample_subset [OF this] have "x21 \<in> set (branches branchset)" by simp
  then show "((R, bset x21, sd, y), (R, Some branchset, sd, g)) \<in>
      measure (\<lambda>(R, bso, sd, g). remaining bso)"
    by (simp add: remaining_child)
qed

definition sample_path ::
  "'g rng \<Rightarrow> SourceModelLogicTree \<Rightarrow> int \<Rightarrow> 'g \<Rightarrow> (error + Branch list) \<times> 'g" where
  "sample_path R t sd g = sample_path_from R (root_branchset t) sd g"

text \<open>The sampling loop of \<^verbatim>\<open>__iter__\<close> over the values \<open>i\<close> of \<^verbatim>\<open>range(num_samples)\<close>,
  and \<^verbatim>\<open>__iter__\<close>; the realizations are collected in a list.\<close>

fun sample_rlzs ::
  "'g rng \<Rightarrow> SourceModelLogicTree \<Rightarrow> real \<Rightarrow> nat list \<Rightarrow> 'g \<Rightarrow> (error + Realization list) \<times> 'g" where
  "sample_rlzs R t w [] g = (Inr [], g)"
| "sample_rlzs R t w (i # rest) g =
     (case sample_path R t (smlt_seed t + int i) g of
        (Inl e, g1) \<Rightarrow> (Inl e, g1)
      | (Inr [], g1) \<Rightarrow> (Inl IndexError, g1)
      | (Inr (b # bs), g1) \<Rightarrow>
          (case sample_rlzs R t w rest g1 of
             (Inl e, g2) \<Rightarrow> (Inl e, g2)
           | (Inr rlzs, g2) \<Rightarrow>
               (Inr (\<lparr>rvalue = uvalue b, rweight = w, ordinal = None,
                      lt_path = map branch_id (b # bs), samples = 1, offset = 0\<rparr> # rlzs), g2)))"




subsection \<open>The paths of a tree, in the words of the specification\<close>








subsection \<open>What the sampling relies on\<close>





subsection \<open>Facts about dictionary comprehensions\<close>

lemma build_dic_None: "build_dic ks f = None \<longleftrightarrow> (\<exists>k \<in> set ks. f k = None)"
  by (induction ks) (auto split: option.splits)

lemma build_dic_keys: "build_dic ks f = Some r \<Longrightarrow> map fst r = ks"
  by (induction ks arbitrary: r) (auto split: option.splits)

lemma build_dic_lookup:
  "build_dic ks f = Some r \<Longrightarrow> map_of r k = (if k \<in> set ks then f k else None)"
  by (induction ks arbitrary: r) (auto split: option.splits)

lemma binop_commute: "(\<And>a b. f a b = f b a) \<Longrightarrow> binop f u v = binop f v u"
  by (simp add: binop_def split: option.splits)

lemma build_dic_map_of_cong:
  assumes "set ks = set ks'"
  shows "map_option map_of (build_dic ks f) = map_option map_of (build_dic ks' f)"
proof (cases "build_dic ks f")
  case None
  then have "build_dic ks' f = None"
    using assms by (simp add: build_dic_None)
  with None show ?thesis by simp
next
  case (Some r)
  then have "build_dic ks' f \<noteq> None"
    using assms build_dic_None [of ks f] build_dic_None [of ks' f] by simp
  then obtain r' where r': "build_dic ks' f = Some r'" by auto
  have "map_of r k = map_of r' k" for k
    using build_dic_lookup [OF Some, of k] build_dic_lookup [OF r', of k] assms by simp
  then have "map_of r = map_of r'" by (rule ext)
  with Some r' show ?thesis by simp
qed

lemma set_union_keys: "set (union_keys x y) = fst ` set x \<union> fst ` set y"
  by (simp add: union_keys_def)

subsection \<open>Facts about grouping and dictionary updates\<close>

lemma set_takeWhile_dropWhile:
  "y \<in> set xs \<Longrightarrow> y \<in> set (takeWhile P xs) \<or> y \<in> set (dropWhile P xs)"
proof -
  assume "y \<in> set xs"
  then have "y \<in> set (takeWhile P xs @ dropWhile P xs)" by simp
  then show ?thesis by (simp del: takeWhile_dropWhile_id)
qed

lemma groupby_keys: "fst ` set (groupby key xs) = key ` set xs"
proof (induction key xs rule: groupby.induct)
  case (1 key)
  then show ?case by simp
next
  case (2 key x xs)
  let ?P = "\<lambda>y. key y = key x"
  have a: "key ` set (dropWhile ?P xs) \<subseteq> key ` set xs"
    by (auto dest: set_dropWhileD)
  have b: "key y \<in> insert (key x) (key ` set (dropWhile ?P xs))" if "y \<in> set xs" for y
    using set_takeWhile_dropWhile [OF that, of ?P] by (auto dest: set_takeWhileD)
  have "fst ` set (groupby key (x # xs)) = insert (key x) (key ` set (dropWhile ?P xs))"
    using 2 by simp
  also have "\<dots> = key ` set (x # xs)"
    using a b by auto
  finally show ?case .
qed

lemma filter_takeWhile_dropWhile:
  "filter Q xs = filter Q (takeWhile P xs) @ filter Q (dropWhile P xs)"
proof -
  have "filter Q (takeWhile P xs @ dropWhile P xs)
      = filter Q (takeWhile P xs) @ filter Q (dropWhile P xs)"
    by (rule filter_append)
  then show ?thesis by (simp only: takeWhile_dropWhile_id)
qed

lemma filter_takeWhile_same: "filter P (takeWhile P xs) = takeWhile P xs"
  by (rule filter_True) (auto dest: set_takeWhileD)

lemma filter_run:
  assumes "key x \<notin> key ` set (dropWhile (\<lambda>y. key y = key x) xs)"
  shows "filter (\<lambda>y. key y = key x) xs = takeWhile (\<lambda>y. key y = key x) xs"
proof -
  let ?P = "\<lambda>y. key y = key x"
  have "filter ?P (dropWhile ?P xs) = []"
    unfolding filter_empty_conv using assms by (metis imageI)
  then have "filter ?P (takeWhile ?P xs) @ filter ?P (dropWhile ?P xs) = takeWhile ?P xs"
    by (simp only: filter_takeWhile_same append_Nil2)
  then show ?thesis
    by (simp only: filter_takeWhile_dropWhile [of ?P xs ?P, symmetric])
qed

lemma filter_other:
  assumes "r \<noteq> key x"
  shows "filter (\<lambda>y. key y = r) xs = filter (\<lambda>y. key y = r) (dropWhile (\<lambda>y. key y = key x) xs)"
proof -
  let ?P = "\<lambda>y. key y = key x"
  have "\<forall>y \<in> set (takeWhile ?P xs). \<not> key y = r"
    using assms by (auto dest: set_takeWhileD)
  then have "filter (\<lambda>y. key y = r) (takeWhile ?P xs) = []"
    unfolding filter_empty_conv .
  then have "filter (\<lambda>y. key y = r) (takeWhile ?P xs) @ filter (\<lambda>y. key y = r) (dropWhile ?P xs)
      = filter (\<lambda>y. key y = r) (dropWhile ?P xs)"
    by (simp only: append_Nil)
  then show ?thesis
    by (simp only: filter_takeWhile_dropWhile [of "\<lambda>y. key y = r" xs ?P, symmetric])
qed


lemma groupby_group:
  "distinct (map fst (groupby key xs)) \<Longrightarrow> (r, g) \<in> set (groupby key xs)
     \<Longrightarrow> g = filter (\<lambda>y. key y = r) xs"
proof (induction key xs rule: groupby.induct)
  case (1 key)
  then show ?case by simp
next
  case (2 key x xs)
  let ?P = "\<lambda>y. key y = key x"
  let ?rest = "groupby key (dropWhile ?P xs)"
  have dist: "key x \<notin> fst ` set ?rest" "distinct (map fst ?rest)"
    using 2(2) by simp_all
  have notin: "key x \<notin> key ` set (dropWhile ?P xs)"
    using dist(1) unfolding groupby_keys .
  have mem: "(r, g) = (key x, x # takeWhile ?P xs) \<or> (r, g) \<in> set ?rest"
    using 2(3) by simp
  show ?case
  proof (cases "r = key x")
    case True
    have "(r, g) \<notin> set ?rest"
      using dist(1) True by force
    with mem have "g = x # takeWhile ?P xs" by blast
    also have "\<dots> = x # filter ?P xs"
      by (simp only: filter_run [OF notin])
    also have "\<dots> = filter ?P (x # xs)" by simp
    finally show ?thesis by (simp only: True)
  next
    case False
    with mem have in_tl: "(r, g) \<in> set ?rest" by blast
    have "g = filter (\<lambda>y. key y = r) (dropWhile ?P xs)"
      using 2(1) [OF dist(2) in_tl] .
    also have "\<dots> = filter (\<lambda>y. key y = r) xs"
      using filter_other [of r key x xs] False by simp
    also have "\<dots> = filter (\<lambda>y. key y = r) (x # xs)"
      using False by auto
    finally show ?thesis .
  qed
qed

lemma sorted_groupby_distinct:
  fixes key :: "'a \<Rightarrow> 'k::linorder"
  shows "sorted (map key xs) \<Longrightarrow> distinct (map fst (groupby key xs))"
proof (induction key xs rule: groupby.induct)
  case (1 key)
  then show ?case by simp
next
  case (2 key x xs)
  let ?P = "\<lambda>y. key y = key x"
  have le: "\<forall>y \<in> set xs. key x \<le> key y" and sx: "sorted (map key xs)"
    using 2(2) by simp_all
  have "sorted (map key (takeWhile ?P xs @ dropWhile ?P xs))"
    using sx by (simp only: takeWhile_dropWhile_id)
  then have sd: "sorted (map key (dropWhile ?P xs))"
    by (simp only: map_append sorted_append)
  have notin: "key x \<notin> key ` set (dropWhile ?P xs)"
  proof
    assume "key x \<in> key ` set (dropWhile ?P xs)"
    then obtain y where y: "y \<in> set (dropWhile ?P xs)" "key y = key x" by auto
    then obtain z zs where z: "dropWhile ?P xs = z # zs"
      by (cases "dropWhile ?P xs") auto
    have nz: "key z \<noteq> key x"
      using hd_dropWhile [of ?P xs] z by auto
    have "z \<in> set xs"
      using set_dropWhileD [of z ?P xs] z by simp
    then have "key x \<le> key z" using le by blast
    moreover have "key z \<le> key y" using sd y(1) unfolding z by auto
    ultimately show False using nz y(2) by simp
  qed
  have "distinct (map fst (groupby key (dropWhile ?P xs)))"
    using 2(1) [OF sd] .
  moreover have "key x \<notin> fst ` set (groupby key (dropWhile ?P xs))"
    using notin unfolding groupby_keys .
  ultimately show ?case by simp
qed

lemma update_fresh: "k \<notin> fst ` set al \<Longrightarrow> AList.update k v al = al @ [(k, v)]"
  by (induction al) auto

lemma foldl_update_distinct:
  "distinct (map fst acc @ map fst kvs) \<Longrightarrow>
     foldl (\<lambda>num (r, v). AList.update r (f v) num) acc kvs = acc @ map (\<lambda>(r, v). (r, f v)) kvs"
proof (induction kvs arbitrary: acc)
  case Nil
  then show ?case by simp
next
  case (Cons kv kvs)
  obtain r v where kv: "kv = (r, v)" by (cases kv)
  have "r \<notin> fst ` set acc" using Cons.prems kv by auto
  then have u: "AList.update r (f v) acc = acc @ [(r, f v)]" by (rule update_fresh)
  have "distinct (map fst (acc @ [(r, f v)]) @ map fst kvs)"
    using Cons.prems kv by auto
  from Cons.IH [OF this] show ?case using u kv by simp
qed

lemma foldl_mult_nonzero:
  "foldl (\<lambda>num val. if val \<noteq> 0 then num * val else num) (a::nat) vs
     = a * prod_list (filter (\<lambda>v. v \<noteq> 0) vs)"
  by (induction vs arbitrary: a) (auto simp: mult.assoc)

subsection \<open>The dictionary of get_num_branches\<close>

lemma get_num_branches_distinct:
  assumes "distinct (map fst (groupby trt (gl_branches t)))"
  shows "get_num_branches t
    = map (\<lambda>r. (r, effective_count t r)) (map fst (groupby trt (gl_branches t)))"
proof -
  let ?gs = "groupby trt (gl_branches t)"
  have "get_num_branches t = map (\<lambda>(r, brs). (r, length (filter effective brs))) ?gs"
    unfolding get_num_branches_def
    using foldl_update_distinct [of "[]" ?gs "\<lambda>brs. length (filter effective brs)"] assms
    by simp
  also have "\<dots> = map (\<lambda>r. (r, effective_count t r)) (map fst ?gs)"
  proof -
    have "length (filter effective g) = effective_count t r" if "(r, g) \<in> set ?gs" for r g
    proof -
      have "g = filter (\<lambda>b. trt b = r) (gl_branches t)"
        using groupby_group [OF assms that] .
      then show ?thesis by (simp add: effective_count_def conj_commute)
    qed
    then show ?thesis by auto
  qed
  finally show ?thesis .
qed

lemma prod_list_distinct_set:
  assumes "distinct xs" "distinct ys" "set xs = set ys"
  shows "prod_list (map f (filter P xs)) = (prod_list (map f (filter P ys)) :: nat)"
proof -
  have dx: "distinct (filter P xs)" and dy: "distinct (filter P ys)"
    using assms by simp_all
  have "prod_list (map f (filter P xs)) = prod f (set (filter P xs))"
    using prod.distinct_set_conv_list [OF dx, of f] by simp
  also have "set (filter P xs) = set (filter P ys)" using assms(3) by simp
  also have "prod f (set (filter P ys)) = prod_list (map f (filter P ys))"
    using prod.distinct_set_conv_list [OF dy, of f] by simp
  finally show ?thesis .
qed

lemma regions_groupby:
  assumes "distinct (map fst (groupby trt (gl_branches t)))"
  shows "prod_list (map (effective_count t)
           (filter (\<lambda>r. effective_count t r \<noteq> 0) (map fst (groupby trt (gl_branches t)))))
       = product_of_nonzero_counts t"
  unfolding product_of_nonzero_counts_def regions_def
proof (rule prod_list_distinct_set [OF assms])
  show "distinct (remdups (map trt (gl_branches t)))" by simp
  show "set (map fst (groupby trt (gl_branches t))) = set (remdups (map trt (gl_branches t)))"
    using groupby_keys [of trt "gl_branches t"] by simp
qed

lemma ball_image_fst: "(\<forall>n \<in> S. P (fst n)) \<longleftrightarrow> (\<forall>r \<in> fst ` S. P r)"
  by auto

lemma sum_counts_zero:
  assumes "distinct (map fst (groupby trt (gl_branches t)))"
  shows "sum_list (map snd (get_num_branches t)) = 0 \<longleftrightarrow> no_effective_branch t"
proof -
  let ?gs = "groupby trt (gl_branches t)"
  have "sum_list (map snd (get_num_branches t)) = 0
      \<longleftrightarrow> (\<forall>n \<in> set ?gs. effective_count t (fst n) = 0)"
    by (simp add: get_num_branches_distinct [OF assms] comp_def)
  also have "\<dots> \<longleftrightarrow> (\<forall>r \<in> fst ` set ?gs. effective_count t r = 0)"
    by (rule ball_image_fst)
  also have "\<dots> \<longleftrightarrow> (\<forall>r \<in> trt ` set (gl_branches t). effective_count t r = 0)"
    by (simp only: groupby_keys)
  also have "\<dots> \<longleftrightarrow> no_effective_branch t"
    by (auto simp: effective_count_def no_effective_branch_def filter_empty_conv)
  finally show ?thesis .
qed

subsection \<open>The weights collected by the construction of a GSIM tree\<close>

lemma bind_err_Inr: "bind_err m f = Inr y \<longleftrightarrow> (\<exists>x. m = Inr x \<and> f x = Inr y)"
  by (cases m) (simp_all add: bind_err_def)

lemma build_branch_weights:
  assumes "build_branch vg bs r eff lp b = Inr lp'"
  shows "\<exists>w. ImtWeight_init b = Inr w \<and> lp_weights lp' = lp_weights lp @ [w]"
proof -
  obtain known values1 where dd: "dd_get (lp_values lp) r = (known, values1)"
    by (cases "dd_get (lp_values lp) r")
  from assms obtain w branch_id g bt_trt where
    w: "ImtWeight_init b = Inr w" and
    r: "Inr \<lparr>lp_weights = lp_weights lp @ [w],
          lp_branch_ids = lp_branch_ids lp @ [branch_id],
          lp_values = AList.update r (known @ [g]) values1,
          lp_branches =
            (if eff then lp_branches lp @ [BranchTuple bt_trt branch_id g w eff]
             else lp_branches lp)\<rparr> = (Inr lp' :: error + branch_loop)"
    unfolding build_branch_def
    by (auto simp: bind_err_Inr dd split: if_splits)
  from r have "lp_weights lp' = lp_weights lp @ [w]" by auto
  with w show ?thesis by blast
qed

lemma build_branches_weights:
  "build_branches vg bs r eff lp bns = Inr lp' \<Longrightarrow>
     \<exists>ws. map ImtWeight_init bns = map Inr ws \<and> lp_weights lp' = lp_weights lp @ ws"
proof (induction bns arbitrary: lp)
  case Nil
  then show ?case by simp
next
  case (Cons b bns)
  from Cons.prems obtain lp1 where
    1: "build_branch vg bs r eff lp b = Inr lp1" and
    2: "build_branches vg bs r eff lp1 bns = Inr lp'"
    by (auto simp: bind_err_Inr)
  from build_branch_weights [OF 1] obtain w where
    w: "ImtWeight_init b = Inr w" "lp_weights lp1 = lp_weights lp @ [w]" by blast
  from Cons.IH [OF 2] obtain ws where
    ws: "map ImtWeight_init bns = map Inr ws" "lp_weights lp' = lp_weights lp1 @ ws" by blast
  have "map ImtWeight_init (b # bns) = map Inr (w # ws)" using w ws by simp
  moreover have "lp_weights lp' = lp_weights lp @ (w # ws)" using w ws by simp
  ultimately show ?case by blast
qed

lemma build_branchset_is_one:
  assumes "build_branchset vg trts st bl = Inr st'"
  shows "\<exists>bs ws tot. the_bsnode bl = Inr bs \<and> map ImtWeight_init (nodes bs) = map Inr ws
     \<and> sum_weights ws = Inr (Some tot) \<and> is_one tot"
proof -
  from assms obtain bs lp tot where
    bs: "the_bsnode bl = Inr bs" and
    lp: "build_branches vg bs (map_of (attrib bs) ''applyToTectonicRegionType'')
           (trts = [''*''] \<or> (case map_of (attrib bs) ''applyToTectonicRegionType'' of
              Some v \<Rightarrow> v \<in> set trts | None \<Rightarrow> False))
           \<lparr>lp_weights = [], lp_branch_ids = [], lp_values = st_values st,
            lp_branches = st_branches st\<rparr> (nodes bs) = Inr lp" and
    tot: "sum_weights (lp_weights lp) = Inr (Some tot)" "is_one tot"
    unfolding build_branchset_def Let_def
    by (auto simp: bind_err_Inr split: if_splits option.splits)
  from build_branches_weights [OF lp] obtain ws where
    "map ImtWeight_init (nodes bs) = map Inr ws" "lp_weights lp = ws" by auto
  with bs tot show ?thesis by blast
qed

subsection \<open>The sum that the construction of a GSIM tree validates\<close>

lemma build_levels_is_one:
  "build_levels vg trts st bls = Inr st' \<Longrightarrow> bl \<in> set bls \<Longrightarrow>
     \<exists>bs ws tot. the_bsnode bl = Inr bs \<and> map ImtWeight_init (nodes bs) = map Inr ws
       \<and> sum_weights ws = Inr (Some tot) \<and> is_one tot"
proof (induction bls arbitrary: st)
  case Nil
  then show ?case by simp
next
  case (Cons b bls)
  from Cons.prems(1) obtain st1 where
    1: "build_branchset vg trts st b = Inr st1" and
    2: "build_levels vg trts st1 bls = Inr st'"
    by (auto simp: bind_err_Inr)
  show ?case
  proof (cases "bl = b")
    case True
    with build_branchset_is_one [OF 1] show ?thesis by simp
  next
    case False
    with Cons.prems(2) have "bl \<in> set bls" by simp
    from Cons.IH [OF 2 this] show ?thesis .
  qed
qed

lemma GsimLogicTree_init_levels:
  assumes "GsimLogicTree_init vg trts ltnode = Inr t"
  shows "\<exists>st. build_levels vg (sort trts)
           \<lparr>st_trts = [], st_branches = [], st_branchsetids = [], st_values = [],
            st_bs_id_by_trt = []\<rparr> ltnode = Inr st"
proof -
  from assms obtain st0 where
    "build_trts_branches vg (sort trts) ltnode = Inr st0"
    unfolding GsimLogicTree_init_def Let_def
    by (cases "distinct (sort trts)") (auto simp: bind_err_Inr)
  then show ?thesis
    unfolding build_trts_branches_def by (auto simp: bind_err_Inr)
qed

lemma ImtWeight_add_float_zero: "ImtWeight_add_float w 0 = w"
  unfolding ImtWeight_add_float_def by (induction w) auto

lemma sum_from_component:
  "sum_from acc ws = Inr tot \<Longrightarrow> map_of acc k = Some a \<Longrightarrow>
     \<exists>s. component_sum ws k = Some s \<and> map_of tot k = Some (a + s)"
proof (induction ws arbitrary: acc a)
  case Nil
  then show ?case by simp
next
  case (Cons w ws)
  from Cons.prems(1) obtain acc1 where
    1: "ImtWeight_add acc w = Some acc1" and 2: "sum_from acc1 ws = Inr tot"
    by (auto split: option.splits)
  have k: "k \<in> set (map fst acc)"
    using Cons.prems(2) map_of_eq_None_iff [of acc k] by simp
  from 1 have bd: "build_dic (map fst acc) (\<lambda>k. binop (+) (map_of acc k) (getitem w k)) = Some acc1"
    by (simp add: ImtWeight_add_def)
  from build_dic_lookup [OF bd, of k] k
  have l: "map_of acc1 k = binop (+) (map_of acc k) (getitem w k)" by simp
  have "binop (+) (map_of acc k) (getitem w k) \<noteq> None"
    using l 1 Cons.prems(2) build_dic_None [of "map fst acc" "\<lambda>k. binop (+) (map_of acc k) (getitem w k)"] bd k
    by (metis option.distinct(1))
  with Cons.prems(2) obtain b where b: "getitem w k = Some b"
    by (auto simp: binop_def split: option.splits)
  with l Cons.prems(2) have "map_of acc1 k = Some (a + b)" by (simp add: binop_def)
  from Cons.IH [OF 2 this] obtain s where
    "component_sum ws k = Some s" "map_of tot k = Some (a + b + s)" by blast
  with b show ?case by (simp add: binop_def add.assoc)
qed

lemma sum_weights_component:
  assumes "sum_weights ws = Inr (Some tot)" "k \<in> set (map fst (hd ws))"
  shows "\<exists>s. component_sum ws k = Some s \<and> map_of tot k = Some s"
proof -
  from assms(1) obtain w rest where
    ws: "ws = w # rest" and s: "sum_from w rest = Inr tot"
    by (auto simp: sum_weights_def ImtWeight_add_float_zero split: list.splits sum.splits)
  have "map_of w k \<noteq> None"
    using assms(2) ws map_of_eq_None_iff [of w k] by simp
  then obtain a where a: "map_of w k = Some a" by blast
  from sum_from_component [OF s a] obtain s' where
    "component_sum rest k = Some s'" "map_of tot k = Some (a + s')" by blast
  with a ws show ?thesis by (simp add: binop_def getitem_def)
qed

lemma sum_weights_nonempty: "sum_weights ws = Inr (Some tot) \<Longrightarrow> ws \<noteq> []"
  by (auto simp: sum_weights_def)

lemma same_keys_imt_keys:
  "same_keys ws \<Longrightarrow> ws \<noteq> [] \<Longrightarrow> set (imt_keys ws) = set (map fst (hd ws))"
proof -
  assume sk: "same_keys ws" and ne: "ws \<noteq> []"
  from ne have h: "hd ws \<in> set ws" by simp
  have u: "set (imt_keys ws) = (\<Union>w \<in> set ws. set (map fst w))"
    by (simp add: imt_keys_def)
  have "\<And>w. w \<in> set ws \<Longrightarrow> set (map fst w) = set (map fst (hd ws))"
    using sk h unfolding same_keys_def by blast
  with h have "(\<Union>w \<in> set ws. set (map fst w)) = set (map fst (hd ws))"
    by blast
  with u show ?thesis by simp
qed

lemma is_one_lookup:
  "is_one tot \<Longrightarrow> map_of tot k = Some s \<Longrightarrow> s \<noteq> 0 \<Longrightarrow> \<bar>s - 1\<bar> < PRECISION"
proof -
  assume a: "is_one tot" "map_of tot k = Some s" "s \<noteq> 0"
  from a(2) have "(k, s) \<in> set tot" by (rule map_of_SomeD)
  then have "s \<in> snd ` set tot" by force
  with a(1,3) show ?thesis by (simp add: is_one_def list_all_iff)
qed

lemma sum_from_keys: "sum_from acc ws = Inr tot \<Longrightarrow> map fst tot = map fst acc"
proof (induction ws arbitrary: acc)
  case Nil
  then show ?case by simp
next
  case (Cons w ws)
  from Cons.prems obtain acc1 where
    1: "ImtWeight_add acc w = Some acc1" and 2: "sum_from acc1 ws = Inr tot"
    by (auto split: option.splits)
  from 1 have "map fst acc1 = map fst acc"
    unfolding ImtWeight_add_def by (rule build_dic_keys)
  with Cons.IH [OF 2] show ?case by simp
qed

lemma sum_weights_keys:
  assumes "sum_weights ws = Inr (Some tot)"
  shows "map fst tot = map fst (hd ws)"
proof -
  from assms obtain w rest where
    ws: "ws = w # rest" and s: "sum_from w rest = Inr tot"
    by (auto simp: sum_weights_def ImtWeight_add_float_zero split: list.splits sum.splits)
  from sum_from_keys [OF s] ws show ?thesis by simp
qed

lemma valid_component_sums:
  assumes "sum_weights ws = Inr (Some tot)" "is_one tot" "same_keys ws"
  shows "set (map fst tot) = set (imt_keys ws)
     \<and> (\<forall>imt \<in> set (imt_keys ws). \<exists>s.
          component_sum ws imt = Some s \<and> map_of tot imt = Some s
          \<and> (s \<noteq> 0 \<longrightarrow> \<bar>s - 1\<bar> < PRECISION))"
proof (intro conjI ballI)
  from assms(1) have ne: "ws \<noteq> []" by (rule sum_weights_nonempty)
  show "set (map fst tot) = set (imt_keys ws)"
    using sum_weights_keys [OF assms(1)] same_keys_imt_keys [OF assms(3) ne] by simp
  fix imt assume "imt \<in> set (imt_keys ws)"
  with assms(3) ne have "imt \<in> set (map fst (hd ws))" by (simp add: same_keys_imt_keys)
  from sum_weights_component [OF assms(1) this] obtain s where
    s: "component_sum ws imt = Some s" "map_of tot imt = Some s" by blast
  with is_one_lookup [OF assms(2) s(2)]
  show "\<exists>s. component_sum ws imt = Some s \<and> map_of tot imt = Some s
          \<and> (s \<noteq> 0 \<longrightarrow> \<bar>s - 1\<bar> < PRECISION)" by blast
qed

text \<open>
  When the branches of a branch set declare different keys, the sum keeps the keys of the
  first branch only, and the outcome of the validation depends on the order of the
  branches.
\<close>

lemma validation_depends_on_branch_order:
  "GsimLogicTree_init (\<lambda>s. Some (GMPE s)) [''Active'']
     [gsim_branchset ''bs1'' ''Active''
        [gsim_branch ''b1'' ''GmpeA'' (1 / 2),
         imt_branch ''b2'' ''GmpeB'' (1 / 2) ''PGA'' (9 / 10)]] =
     Inr \<lparr>gl_values = [(Some ''Active'', [GMPE ''GmpeA'', GMPE ''GmpeB''])],
          bs_id_by_trt = [(Some ''Active'', ''bs1'')],
          gl_branches =
            [BranchTuple ''Active'' ''b1'' (GMPE ''GmpeA'') [(''weight'', 1 / 2)] True,
             BranchTuple ''Active'' ''b2'' (GMPE ''GmpeB'')
               [(''weight'', 1 / 2), (''PGA'', 9 / 10)] True]\<rparr>
   \<and> GsimLogicTree_init (\<lambda>s. Some (GMPE s)) [''Active'']
     [gsim_branchset ''bs1'' ''Active''
        [imt_branch ''b2'' ''GmpeB'' (1 / 2) ''PGA'' (9 / 10),
         gsim_branch ''b1'' ''GmpeA'' (1 / 2)]] = Inl AssertionError"
  by (intro conjI; code_simp)

subsection \<open>Enumerated paths and the paths of the tree\<close>










subsection \<open>Sampling does not depend on the state of the generator\<close>






lemma sample_path_from_nonempty:
  "sample_path_from R (Some bs) sd g = (Inr p, g') \<Longrightarrow> p \<noteq> []"
  by (auto split: prod.splits sum.splits list.splits)




lemma sample_rlzs_result:
  "fst (sample_rlzs R t w is g) = Inr rlzs \<Longrightarrow>
     length rlzs = length is \<and> list_all (\<lambda>r. rweight r = w) rlzs"
proof (induction "is" arbitrary: g rlzs)
  case Nil
  then show ?case by simp
next
  case (Cons i rest)
  obtain r g1 where a: "sample_path R t (smlt_seed t + int i) g = (r, g1)"
    by (cases "sample_path R t (smlt_seed t + int i) g")
  obtain q g2 where c: "sample_rlzs R t w rest g1 = (q, g2)"
    by (cases "sample_rlzs R t w rest g1")
  from Cons.prems a c obtain b bs rl where
    "r = Inr (b # bs)" "q = Inr rl"
    "rlzs = \<lparr>rvalue = uvalue b, rweight = w, ordinal = None,
             lt_path = map branch_id (b # bs), samples = 1, offset = 0\<rparr> # rl"
    by (auto split: sum.splits list.splits)
  moreover from Cons.IH [of g1 rl] c \<open>q = Inr rl\<close>
  have "length rl = length rest \<and> list_all (\<lambda>r. rweight r = w) rl" by simp
  ultimately show ?case by simp
qed

lemma sample_path_nonempty:
  assumes "root_branchset t = Some rootbs" "fst (sample_path R t sd g) = Inr p"
  shows "\<exists>b bs. p = b # bs"
proof -
  obtain g' where "sample_path_from R (Some rootbs) sd g = (Inr p, g')"
    using assms by (cases "sample_path_from R (Some rootbs) sd g") (simp add: sample_path_def)
  from sample_path_from_nonempty [OF this] show ?thesis by (cases p) auto
qed

subsection \<open>Sampling succeeds with a generator that behaves as numpy\<close>












subsection \<open>Addition and multiplication of ImtWeights\<close>

text \<open>
  C10. The sum of two ImtWeights has exactly the keys of the left operand, each value being
  the left value plus the right operand's \<^verbatim>\<open>__getitem__\<close> (which falls back to the
  component \<^verbatim>\<open>'weight'\<close>); there are ImtWeights with different key sets whose two sums
  are different dictionaries; the product has the union of both key sets and, as a
  dictionary, does not depend on the order of the operands.
\<close>

theorem ImtWeight_add_left_keys_mul_commutes:
  "(\<forall>z. ImtWeight_add x y = Some z \<longrightarrow>
      map fst z = map fst x \<and>
      (\<forall>k \<in> set (map fst x). map_of z k = binop (+) (map_of x k) (getitem y k)))
   \<and> (\<exists>a b. \<exists>u v. ImtWeight_add a b = Some u \<and> ImtWeight_add b a = Some v
        \<and> map_of u \<noteq> map_of v)
   \<and> (\<forall>z. ImtWeight_mul x y = Some z \<longrightarrow> set (map fst z) = set (map fst x) \<union> set (map fst y))
   \<and> map_option map_of (ImtWeight_mul x y) = map_option map_of (ImtWeight_mul y x)"
proof (intro conjI allI impI)
  fix z assume z: "ImtWeight_add x y = Some z"
  then show "map fst z = map fst x"
    unfolding ImtWeight_add_def by (rule build_dic_keys)
  show "\<forall>k \<in> set (map fst x). map_of z k = binop (+) (map_of x k) (getitem y k)"
    using build_dic_lookup [OF z [unfolded ImtWeight_add_def]] by simp
next
  let ?a = "[(''weight'', 1 / 2), (''PGA'', 1 / 4)] :: ImtWeight"
  let ?b = "[(''weight'', 1 / 2)] :: ImtWeight"
  have "ImtWeight_add ?a ?b = Some [(''weight'', 1), (''PGA'', 3 / 4)]"
    by (simp add: ImtWeight_add_def binop_def getitem_def)
  moreover have "ImtWeight_add ?b ?a = Some [(''weight'', 1)]"
    by (simp add: ImtWeight_add_def binop_def getitem_def)
  moreover have "map_of [(''weight'', 1), (''PGA'', 3 / 4 :: real)] ''PGA''
      \<noteq> map_of [(''weight'', 1 :: real)] ''PGA''"
    by simp
  then have "map_of [(''weight'', 1), (''PGA'', 3 / 4 :: real)] \<noteq> map_of [(''weight'', 1 :: real)]"
    by metis
  ultimately show "\<exists>a b. \<exists>u v. ImtWeight_add a b = Some u \<and> ImtWeight_add b a = Some v
      \<and> map_of u \<noteq> map_of v"
    by blast
next
  fix z assume "ImtWeight_mul x y = Some z"
  then have "map fst z = union_keys x y"
    unfolding ImtWeight_mul_def by (rule build_dic_keys)
  then show "set (map fst z) = set (map fst x) \<union> set (map fst y)"
    by (simp add: set_union_keys)
next
  have f: "(\<lambda>k. binop (*) (getitem x k) (getitem y k)) = (\<lambda>k. binop (*) (getitem y k) (getitem x k))"
    by (rule ext, rule binop_commute) (simp add: mult.commute)
  have s: "set (union_keys x y) = set (union_keys y x)"
    by (auto simp: set_union_keys)
  have "map_option map_of (build_dic (union_keys x y) (\<lambda>k. binop (*) (getitem x k) (getitem y k)))
      = map_option map_of (build_dic (union_keys y x) (\<lambda>k. binop (*) (getitem x k) (getitem y k)))"
    using s by (rule build_dic_map_of_cong)
  also have "\<dots> = map_option map_of (build_dic (union_keys y x) (\<lambda>k. binop (*) (getitem y k) (getitem x k)))"
    by (simp only: f)
  finally show "map_option map_of (ImtWeight_mul x y) = map_option map_of (ImtWeight_mul y x)"
    by (simp only: ImtWeight_mul_def)
qed

theorem ImtWeight_add_left_keys_mul_commutes_witness:
  "ImtWeight_add [(''weight'', 1 / 2), (''PGA'', 1 / 4)] [(''weight'', 1 / 2)]
     = Some [(''weight'', 1), (''PGA'', 3 / 4)]
   \<and> ImtWeight_mul [(''weight'', 1 / 2), (''PGA'', 1 / 4)] [(''weight'', 1 / 2)]
     = Some [(''PGA'', 1 / 8), (''weight'', 1 / 4)]
   \<and> map fst [(''weight'', 1 :: real), (''PGA'', 3 / 4)] = [''weight'', ''PGA'']
   \<and> set (map fst [(''PGA'', 1 / 8 :: real), (''weight'', 1 / 4)]) = {''weight'', ''PGA''}"
proof -
  let ?a = "[(''weight'', 1 / 2), (''PGA'', 1 / 4)] :: ImtWeight"
  let ?b = "[(''weight'', 1 / 2)] :: ImtWeight"
  have a: "ImtWeight_add ?a ?b = Some [(''weight'', 1), (''PGA'', 3 / 4)]"
    by (simp add: ImtWeight_add_def binop_def getitem_def)
  have m: "ImtWeight_mul ?a ?b = Some [(''PGA'', 1 / 8), (''weight'', 1 / 4)]"
    by (simp add: ImtWeight_mul_def union_keys_def binop_def getitem_def)
  from ImtWeight_add_left_keys_mul_commutes [of ?a ?b] a m
  have "map fst [(''weight'', 1 :: real), (''PGA'', 3 / 4)] = map fst ?a"
    and "set (map fst [(''PGA'', 1 / 8 :: real), (''weight'', 1 / 4)]) = set (map fst ?a) \<union> set (map fst ?b)"
    by blast+
  with a m show ?thesis by auto
qed

subsection \<open>The number of paths of a GSIM logic tree\<close>

text \<open>
  C8, as stated: \<^verbatim>\<open>get_num_paths\<close> is the product over the tectonic region types of the
  number of effective branches of each. It fails on Scenario C reduced to the region type
  Active: the group of Stable then has no effective branch, the product of the counts is
  0, and \<^verbatim>\<open>get_num_paths\<close> returns 2.
\<close>

theorem get_num_paths_not_product_of_counts:
  "get_num_paths (reduce scenario_C {''Active''}) = 2
   \<and> product_of_counts (reduce scenario_C {''Active''}) = 0"
proof
  show "get_num_paths (reduce scenario_C {''Active''}) = 2"
    by (simp add: get_num_paths_def get_num_branches_def reduce_def scenario_C_def)
  show "product_of_counts (reduce scenario_C {''Active''}) = 0"
    by (simp add: product_of_counts_def regions_def effective_count_def reduce_def
        scenario_C_def)
qed

text \<open>
  C8, amended: for a tree whose branches are sorted by tectonic region type (as the
  constructor leaves them), \<^verbatim>\<open>get_num_paths\<close> is 0 when no branch is effective, and
  otherwise the product of the effective branch counts of the region types that have an
  effective branch; on Scenario C it is 4.
\<close>

theorem get_num_paths_product:
  "(sorted (map trt (gl_branches t)) \<longrightarrow>
      get_num_paths t = (if no_effective_branch t then 0 else product_of_nonzero_counts t))
   \<and> get_num_paths scenario_C = 4"
proof (intro conjI impI)
  assume s: "sorted (map trt (gl_branches t))"
  have d: "distinct (map fst (groupby trt (gl_branches t)))"
    using s by (rule sorted_groupby_distinct)
  have "foldl (\<lambda>num val. if val \<noteq> 0 then num * val else num) 1
          (map snd (get_num_branches t)) = product_of_nonzero_counts t"
    unfolding foldl_mult_nonzero get_num_branches_distinct [OF d]
    using regions_groupby [OF d] by (simp add: comp_def filter_map)
  then show "get_num_paths t = (if no_effective_branch t then 0 else product_of_nonzero_counts t)"
    unfolding get_num_paths_def Let_def sum_counts_zero [OF d] by simp
next
  show "get_num_paths scenario_C = 4"
    by (simp add: get_num_paths_def get_num_branches_def scenario_C_def)
qed

theorem get_num_paths_product_witness:
  "sorted (map trt (gl_branches (reduce scenario_C {''Active''})))
   \<and> \<not> no_effective_branch (reduce scenario_C {''Active''})
   \<and> product_of_nonzero_counts (reduce scenario_C {''Active''}) = 2
   \<and> get_num_paths (reduce scenario_C {''Active''}) = 2"
proof -
  let ?t = "reduce scenario_C {''Active''}"
  have s: "sorted (map trt (gl_branches ?t))"
    by (simp add: reduce_def scenario_C_def less_eq_char_def less_char_def)
  have n: "\<not> no_effective_branch ?t"
    by (simp add: no_effective_branch_def reduce_def scenario_C_def)
  have p: "product_of_nonzero_counts ?t = 2"
    by (simp add: product_of_nonzero_counts_def regions_def effective_count_def reduce_def
        scenario_C_def)
  from get_num_paths_product [of ?t] s n p have "get_num_paths ?t = 2"
    by simp
  with s n p show ?thesis by simp
qed

subsection \<open>Collapsing a GSIM logic tree\<close>

text \<open>
  C2. \<^verbatim>\<open>collapse\<close> should replace a group whose branch set is listed and that has more
  than one branch by one averaging branch, and pass every other group through unchanged.
  On Scenario C, which is what the constructor builds from its two branch sets, collapsing
  the branch set of Active gives one averaging branch for Active, and for Stable only its
  last branch \<^verbatim>\<open>b4\<close>: the branch \<^verbatim>\<open>b3\<close> is lost.
\<close>

theorem collapse_scenario_C_drops_branch:
  "GsimLogicTree_init (\<lambda>s. Some (GMPE s)) [''Active'', ''Stable''] scenario_C_nodes
     = Inr scenario_C
   \<and> collapse scenario_C [''bs1''] =
       Inr (scenario_C\<lparr>gl_branches :=
         [BranchTuple ''Active'' ''bs1''
            (AvgGMPE [''b1'', ''b2''] [GMPE ''GmpeA'', GMPE ''GmpeB''] [1 / 2, 1 / 2])
            [(''weight'', 1)] True,
          BranchTuple ''Stable'' ''b4'' (GMPE ''GmpeD'') [(''weight'', 1 / 2)] True]\<rparr>)"
proof
  show "GsimLogicTree_init (\<lambda>s. Some (GMPE s)) [''Active'', ''Stable''] scenario_C_nodes
      = Inr scenario_C"
    by code_simp
  show "collapse scenario_C [''bs1''] =
       Inr (scenario_C\<lparr>gl_branches :=
         [BranchTuple ''Active'' ''bs1''
            (AvgGMPE [''b1'', ''b2''] [GMPE ''GmpeA'', GMPE ''GmpeB''] [1 / 2, 1 / 2])
            [(''weight'', 1)] True,
          BranchTuple ''Stable'' ''b4'' (GMPE ''GmpeD'') [(''weight'', 1 / 2)] True]\<rparr>)"
    by (simp add: collapse_def collapse_group_def scenario_C_def sum_weights_def
        ImtWeight_add_float_def ImtWeight_add_def binop_def getitem_def)
qed

subsection \<open>The weights of a GSIM branch set\<close>

text \<open>
  C6, as stated: construction fails unless every component of the sum of a branch set's
  ImtWeights is within the tolerance of 1, and \<^verbatim>\<open>is_one\<close> holds exactly when every
  component is. It fails for a branch set that gives an intensity measure type the weight
  0 in every branch: the sum has the component 0 for it, \<^verbatim>\<open>is_one\<close> skips it
  (\<^verbatim>\<open>... for v in self.dic.values() if v\<close>) and the construction succeeds.
\<close>

theorem is_one_accepts_zero_component:
  "GsimLogicTree_init (\<lambda>s. Some (GMPE s)) [''Active''] zero_imt_nodes =
     Inr \<lparr>gl_values = [(Some ''Active'', [GMPE ''GmpeA'', GMPE ''GmpeB''])],
          bs_id_by_trt = [(Some ''Active'', ''bs1'')],
          gl_branches =
            [BranchTuple ''Active'' ''b1'' (GMPE ''GmpeA'') [(''weight'', 1 / 2), (''PGA'', 0)] True,
             BranchTuple ''Active'' ''b2'' (GMPE ''GmpeB'') [(''weight'', 1 / 2), (''PGA'', 0)] True]\<rparr>
   \<and> sum_weights [[(''weight'', 1 / 2), (''PGA'', 0)], [(''weight'', 1 / 2), (''PGA'', 0)]]
       = Inr (Some [(''weight'', 1), (''PGA'', 0)])
   \<and> is_one [(''weight'', 1), (''PGA'', 0)]
   \<and> \<not> \<bar>(0 :: real) - 1\<bar> < PRECISION"
proof (intro conjI)
  show "GsimLogicTree_init (\<lambda>s. Some (GMPE s)) [''Active''] zero_imt_nodes =
     Inr \<lparr>gl_values = [(Some ''Active'', [GMPE ''GmpeA'', GMPE ''GmpeB''])],
          bs_id_by_trt = [(Some ''Active'', ''bs1'')],
          gl_branches =
            [BranchTuple ''Active'' ''b1'' (GMPE ''GmpeA'') [(''weight'', 1 / 2), (''PGA'', 0)] True,
             BranchTuple ''Active'' ''b2'' (GMPE ''GmpeB'') [(''weight'', 1 / 2), (''PGA'', 0)] True]\<rparr>"
    by code_simp
  show "sum_weights [[(''weight'', 1 / 2), (''PGA'', 0)], [(''weight'', 1 / 2), (''PGA'', 0)]]
       = Inr (Some [(''weight'', 1), (''PGA'', 0)])"
    by (simp add: sum_weights_def ImtWeight_add_float_def ImtWeight_add_def binop_def getitem_def)
  show "is_one [(''weight'', 1), (''PGA'', 0)]"
    by (simp add: is_one_def PRECISION_def)
  show "\<not> \<bar>(0 :: real) - 1\<bar> < PRECISION"
    by (simp add: PRECISION_def)
qed

text \<open>
  C6, amended: \<^verbatim>\<open>is_one\<close> holds exactly when every nonzero component is within the
  tolerance of 1. Whenever the construction of a GSIM logic tree succeeds, every branch
  set of the input had the ImtWeights of all its branches read, and it has a branch; if
  its branches declare the same keys, then the dictionary handed to \<^verbatim>\<open>is_one\<close> is
  their component-wise sum: it has the keys present, its value at each key is the sum
  over the branches of their weights for that key, and each such sum is 0 or within the
  tolerance of 1. A branch set whose weights sum to 0.9 makes the construction fail with
  an AssertionError.
\<close>

theorem construction_validates_weight_sums:
  "(is_one d \<longleftrightarrow> (\<forall>v \<in> set (map snd d). v \<noteq> 0 \<longrightarrow> \<bar>v - 1\<bar> < PRECISION))
   \<and> (GsimLogicTree_init valid_gsim tectonic_region_types ltnode = Inr t \<longrightarrow>
        (\<forall>blnode \<in> set ltnode. \<exists>branchset weights.
           the_bsnode blnode = Inr branchset
           \<and> map ImtWeight_init (nodes branchset) = map Inr weights
           \<and> weights \<noteq> []
           \<and> (same_keys weights \<longrightarrow>
                (\<exists>tot. sum_weights weights = Inr (Some tot) \<and> is_one tot
                   \<and> set (map fst tot) = set (imt_keys weights)
                   \<and> (\<forall>imt \<in> set (imt_keys weights). \<exists>s.
                        component_sum weights imt = Some s \<and> map_of tot imt = Some s
                        \<and> (s \<noteq> 0 \<longrightarrow> \<bar>s - 1\<bar> < PRECISION))))))
   \<and> GsimLogicTree_init (\<lambda>s. Some (GMPE s)) [''Active'']
        [gsim_branchset ''bs1'' ''Active''
           [gsim_branch ''b1'' ''GmpeA'' (1 / 2), gsim_branch ''b2'' ''GmpeB'' (4 / 10)]]
      = Inl AssertionError"
proof (intro conjI impI ballI)
  show "is_one d \<longleftrightarrow> (\<forall>v \<in> set (map snd d). v \<noteq> 0 \<longrightarrow> \<bar>v - 1\<bar> < PRECISION)"
    by (auto simp: is_one_def list_all_iff)
next
  fix blnode
  assume init: "GsimLogicTree_init valid_gsim tectonic_region_types ltnode = Inr t"
    and bl: "blnode \<in> set ltnode"
  from GsimLogicTree_init_levels [OF init] obtain st where
    "build_levels valid_gsim (sort tectonic_region_types)
       \<lparr>st_trts = [], st_branches = [], st_branchsetids = [], st_values = [],
        st_bs_id_by_trt = []\<rparr> ltnode = Inr st" by blast
  from build_levels_is_one [OF this bl] obtain branchset weights tot where
    b: "the_bsnode blnode = Inr branchset"
      "map ImtWeight_init (nodes branchset) = map Inr weights"
    and s: "sum_weights weights = Inr (Some tot)" and one: "is_one tot"
    by blast
  have "weights \<noteq> []" using s by (rule sum_weights_nonempty)
  moreover have "same_keys weights \<longrightarrow>
      (\<exists>tot. sum_weights weights = Inr (Some tot) \<and> is_one tot
         \<and> set (map fst tot) = set (imt_keys weights)
         \<and> (\<forall>imt \<in> set (imt_keys weights). \<exists>s.
              component_sum weights imt = Some s \<and> map_of tot imt = Some s
              \<and> (s \<noteq> 0 \<longrightarrow> \<bar>s - 1\<bar> < PRECISION)))"
    using valid_component_sums [OF s one] s one by blast
  ultimately show "\<exists>branchset weights.
           the_bsnode blnode = Inr branchset
           \<and> map ImtWeight_init (nodes branchset) = map Inr weights
           \<and> weights \<noteq> []
           \<and> (same_keys weights \<longrightarrow>
                (\<exists>tot. sum_weights weights = Inr (Some tot) \<and> is_one tot
                   \<and> set (map fst tot) = set (imt_keys weights)
                   \<and> (\<forall>imt \<in> set (imt_keys weights). \<exists>s.
                        component_sum weights imt = Some s \<and> map_of tot imt = Some s
                        \<and> (s \<noteq> 0 \<longrightarrow> \<bar>s - 1\<bar> < PRECISION))))"
    using b by blast
next
  show "GsimLogicTree_init (\<lambda>s. Some (GMPE s)) [''Active'']
        [gsim_branchset ''bs1'' ''Active''
           [gsim_branch ''b1'' ''GmpeA'' (1 / 2), gsim_branch ''b2'' ''GmpeB'' (4 / 10)]]
      = Inl AssertionError"
    by code_simp
qed

theorem construction_validates_weight_sums_witness:
  "GsimLogicTree_init (\<lambda>s. Some (GMPE s)) [''Active'', ''Stable''] imt_nodes =
     Inr \<lparr>gl_values = [(Some ''Active'', [GMPE ''GmpeA'', GMPE ''GmpeB'']),
                        (Some ''Stable'', [GMPE ''GmpeC'', GMPE ''GmpeD''])],
          bs_id_by_trt = [(Some ''Active'', ''bs1''), (Some ''Stable'', ''bs2'')],
          gl_branches =
            [BranchTuple ''Active'' ''b1'' (GMPE ''GmpeA'') [(''weight'', 1 / 2), (''PGA'', 3 / 10)] True,
             BranchTuple ''Active'' ''b2'' (GMPE ''GmpeB'') [(''weight'', 1 / 2), (''PGA'', 7 / 10)] True,
             BranchTuple ''Stable'' ''b3'' (GMPE ''GmpeC'') [(''weight'', 1 / 4), (''PGA'', 0)] True,
             BranchTuple ''Stable'' ''b4'' (GMPE ''GmpeD'') [(''weight'', 3 / 4), (''PGA'', 0)] True]\<rparr>
   \<and> same_keys [[(''weight'', 1 / 4), (''PGA'', 0)], [(''weight'', 3 / 4), (''PGA'', 0)]]
   \<and> (\<exists>tot. sum_weights [[(''weight'', 1 / 4), (''PGA'', 0)], [(''weight'', 3 / 4), (''PGA'', 0)]]
          = Inr (Some tot) \<and> is_one tot
        \<and> (\<exists>s. component_sum [[(''weight'', 1 / 4), (''PGA'', 0)], [(''weight'', 3 / 4), (''PGA'', 0)]]
                 ''PGA'' = Some s \<and> map_of tot ''PGA'' = Some s
               \<and> (s = 0 \<or> \<bar>s - 1\<bar> < PRECISION)))
   \<and> is_one [(''weight'', 1), (''PGA'', 0)]"
proof -
  let ?t = "\<lparr>gl_values = [(Some ''Active'', [GMPE ''GmpeA'', GMPE ''GmpeB'']),
                        (Some ''Stable'', [GMPE ''GmpeC'', GMPE ''GmpeD''])],
          bs_id_by_trt = [(Some ''Active'', ''bs1''), (Some ''Stable'', ''bs2'')],
          gl_branches =
            [BranchTuple ''Active'' ''b1'' (GMPE ''GmpeA'') [(''weight'', 1 / 2), (''PGA'', 3 / 10)] True,
             BranchTuple ''Active'' ''b2'' (GMPE ''GmpeB'') [(''weight'', 1 / 2), (''PGA'', 7 / 10)] True,
             BranchTuple ''Stable'' ''b3'' (GMPE ''GmpeC'') [(''weight'', 1 / 4), (''PGA'', 0)] True,
             BranchTuple ''Stable'' ''b4'' (GMPE ''GmpeD'') [(''weight'', 3 / 4), (''PGA'', 0)] True]\<rparr>"
  let ?W = "[[(''weight'', 1 / 4 :: real), (''PGA'', 0)], [(''weight'', 3 / 4), (''PGA'', 0)]]"
  let ?bl = "gsim_branchset ''bs2'' ''Stable''
        [imt_branch ''b3'' ''GmpeC'' (1 / 4) ''PGA'' 0,
         imt_branch ''b4'' ''GmpeD'' (3 / 4) ''PGA'' 0]"
  let ?d = "[(''weight'', 1 :: real), (''PGA'', 0)]"
  have init: "GsimLogicTree_init (\<lambda>s. Some (GMPE s)) [''Active'', ''Stable''] imt_nodes = Inr ?t"
    by code_simp
  have mem: "?bl \<in> set imt_nodes"
    by (simp add: imt_nodes_def)
  have bs: "the_bsnode ?bl = Inr
      \<lparr>attrib = [(''uncertaintyType'', ''gmpeModel''), (''branchSetID'', ''bs2''),
                 (''applyToTectonicRegionType'', ''Stable'')],
       nodes = [imt_branch ''b3'' ''GmpeC'' (1 / 4) ''PGA'' 0,
                imt_branch ''b4'' ''GmpeD'' (3 / 4) ''PGA'' 0], lineno = 0\<rparr>"
    by (simp add: the_bsnode_def gsim_branchset_def)
  have ws: "map ImtWeight_init [imt_branch ''b3'' ''GmpeC'' (1 / 4) ''PGA'' 0,
                imt_branch ''b4'' ''GmpeD'' (3 / 4) ''PGA'' 0] = map Inr ?W"
    by (simp add: ImtWeight_init_def imt_branch_def attr_def)
  have sk: "same_keys ?W"
    by (simp add: same_keys_def)
  have key: "''PGA'' \<in> set (imt_keys ?W)"
    by (simp add: imt_keys_def)
  have d: "\<forall>v \<in> set (map snd ?d). v \<noteq> 0 \<longrightarrow> \<bar>v - 1\<bar> < PRECISION"
    by (simp add: PRECISION_def)
  from construction_validates_weight_sums
    [of ?d "\<lambda>s. Some (GMPE s)" "[''Active'', ''Stable'']" imt_nodes ?t]
  have one: "is_one ?d" and
    all: "\<forall>blnode \<in> set imt_nodes. \<exists>branchset weights.
           the_bsnode blnode = Inr branchset
           \<and> map ImtWeight_init (nodes branchset) = map Inr weights
           \<and> weights \<noteq> []
           \<and> (same_keys weights \<longrightarrow>
                (\<exists>tot. sum_weights weights = Inr (Some tot) \<and> is_one tot
                   \<and> set (map fst tot) = set (imt_keys weights)
                   \<and> (\<forall>imt \<in> set (imt_keys weights). \<exists>s.
                        component_sum weights imt = Some s \<and> map_of tot imt = Some s
                        \<and> (s \<noteq> 0 \<longrightarrow> \<bar>s - 1\<bar> < PRECISION))))"
    using init d by blast+
  from all mem obtain branchset weights where
    b: "the_bsnode ?bl = Inr branchset"
      "map ImtWeight_init (nodes branchset) = map Inr weights"
      "same_keys weights \<longrightarrow>
                (\<exists>tot. sum_weights weights = Inr (Some tot) \<and> is_one tot
                   \<and> set (map fst tot) = set (imt_keys weights)
                   \<and> (\<forall>imt \<in> set (imt_keys weights). \<exists>s.
                        component_sum weights imt = Some s \<and> map_of tot imt = Some s
                        \<and> (s \<noteq> 0 \<longrightarrow> \<bar>s - 1\<bar> < PRECISION)))"
    by blast
  from b(1) bs have "nodes branchset = [imt_branch ''b3'' ''GmpeC'' (1 / 4) ''PGA'' 0,
                imt_branch ''b4'' ''GmpeD'' (3 / 4) ''PGA'' 0]" by auto
  with b(2) ws have "map Inr weights = (map Inr ?W :: (error + ImtWeight) list)" by simp
  then have "weights = ?W" by (auto simp: map_eq_Cons_conv)
  with b(3) sk key have "\<exists>tot. sum_weights ?W = Inr (Some tot) \<and> is_one tot
        \<and> (\<exists>s. component_sum ?W ''PGA'' = Some s \<and> map_of tot ''PGA'' = Some s
               \<and> (s = 0 \<or> \<bar>s - 1\<bar> < PRECISION))"
    by blast
  with init sk one show ?thesis by blast
qed

subsection \<open>Full enumeration of a source model logic tree\<close>



subsection \<open>Iterating over a source model logic tree\<close>



subsection \<open>Sampling is deterministic in the seed\<close>



end
